theory Spec2Isabelle
  imports Complex_Main "HOL-Library.List_Lexorder" "HOL-Library.Char_ord"
begin

section \<open>JavaScript values of the earnings aggregator\<close>

text \<open>
  The rows the routes read are JavaScript objects whose fields hold a number, \<open>null\<close>
  (an SQL NULL), a boolean, or nothing at all (\<open>undefined\<close>).  A number is a real
  here (the rounding of IEEE doubles is not modelled), \<open>NaN\<close> is a value of its own,
  and strings are left out of the numeric fields.
\<close>

datatype jsval = Undefined | Null | Bool bool | Num real | NaN

text \<open>\<open>ToNumber\<close> of the language: \<open>None\<close> stands for NaN.\<close>

fun ToNumber :: "jsval \<Rightarrow> real option" where
  "ToNumber Undefined = None"
| "ToNumber Null = Some 0"
| "ToNumber (Bool b) = Some (if b then 1 else 0)"
| "ToNumber (Num x) = Some x"
| "ToNumber NaN = None"

fun ToBoolean :: "jsval \<Rightarrow> bool" where
  "ToBoolean Undefined = False"
| "ToBoolean Null = False"
| "ToBoolean (Bool b) = b"
| "ToBoolean (Num x) = (x \<noteq> 0)"
| "ToBoolean NaN = False"

text \<open>\<open>a || b\<close>, \<open>a + b\<close>, \<open>a * b\<close> and \<open>a - b\<close> on values that are not strings.\<close>

definition js_or :: "jsval \<Rightarrow> jsval \<Rightarrow> jsval" where
  "js_or a b = (if ToBoolean a then a else b)"

definition js_arith :: "(real \<Rightarrow> real \<Rightarrow> real) \<Rightarrow> jsval \<Rightarrow> jsval \<Rightarrow> jsval" where
  "js_arith f a b =
     (case ToNumber a of
        None \<Rightarrow> NaN
      | Some x \<Rightarrow> (case ToNumber b of None \<Rightarrow> NaN | Some y \<Rightarrow> Num (f x y)))"

definition js_add :: "jsval \<Rightarrow> jsval \<Rightarrow> jsval" where
  "js_add = js_arith (+)"

definition js_mul :: "jsval \<Rightarrow> jsval \<Rightarrow> jsval" where
  "js_mul = js_arith (*)"

definition js_sub :: "jsval \<Rightarrow> jsval \<Rightarrow> jsval" where
  "js_sub = js_arith (-)"

section \<open>The store\<close>

text \<open>
  The tables of \<open>initDatabase\<close>, with the columns the modelled routes read or write.
  Dates are kept as the text the routes store (\<open>date TEXT\<close>, \<open>pay_period_start TEXT\<close>)
  and compared as text.
\<close>

record employee_row =
  emp_id :: int
  hourly_wage :: jsval

record time_entry_row =
  te_id :: int
  te_employee_id :: int
  te_date :: string
  hours :: jsval

record client_entry_row =
  ce_id :: int
  ce_time_entry_id :: int
  amount_earned :: jsval
  tip_amount :: jsval
  tip_received_cash :: jsval

record product_sale_row =
  ps_id :: int
  ps_time_entry_id :: int
  commission_amount :: jsval

record invoice_row =
  inv_id :: int
  inv_employee_id :: int
  pay_period_start :: string
  pay_period_end :: string
  total_hours :: jsval
  total_wages :: jsval
  total_commissions :: jsval
  total_tips :: jsval
  total_product_commissions :: jsval
  cash_tips_received :: jsval
  total_payable :: jsval

record database =
  employees :: "employee_row list"
  time_entries :: "time_entry_row list"
  client_entries :: "client_entry_row list"
  product_sales :: "product_sale_row list"
  invoices :: "invoice_row list"

text \<open>
  \<open>getAll\<close> of src/server.js returns the rows a \<open>WHERE\<close> clause selects, in table
  order; \<open>getOne\<close> is \<open>results[0] || null\<close>.
\<close>

definition getAll :: "('r \<Rightarrow> bool) \<Rightarrow> 'r list \<Rightarrow> 'r list" where
  "getAll wh rows = filter wh rows"

definition getOne :: "('r \<Rightarrow> bool) \<Rightarrow> 'r list \<Rightarrow> 'r option" where
  "getOne wh rows = (case getAll wh rows of [] \<Rightarrow> None | r # _ \<Rightarrow> Some r)"

text \<open>
  The Supabase port (the second server file) ends its one-row queries with
  \<open>.single()\<close>, which hands back the row when the query selects exactly one row and
  \<open>data: null\<close> with an error, which the routes ignore, when it selects none or several.
\<close>

definition single :: "('r \<Rightarrow> bool) \<Rightarrow> 'r list \<Rightarrow> 'r option" where
  "single wh rows = (case filter wh rows of [r] \<Rightarrow> Some r | _ \<Rightarrow> None)"

section \<open>The pay period summary\<close>

text \<open>The five running totals of \<open>GET /api/pay-period/:employeeId\<close>.\<close>

record totals =
  totalHours :: jsval
  totalCommissions :: jsval
  totalTips :: jsval
  totalCashTips :: jsval
  totalProductCommissions :: jsval

text \<open>\<open>for (const c of clients) { ... }\<close>\<close>

fun clients_loop :: "client_entry_row list \<Rightarrow> totals \<Rightarrow> totals" where
  "clients_loop [] acc = acc"
| "clients_loop (c # cs) acc =
     clients_loop cs
       (acc\<lparr> totalCommissions := js_add (totalCommissions acc) (js_or (amount_earned c) (Num 0)),
             totalTips := js_add (totalTips acc) (js_or (tip_amount c) (Num 0)),
             totalCashTips :=
               (if ToBoolean (tip_received_cash c)
                then js_add (totalCashTips acc) (js_or (tip_amount c) (Num 0))
                else totalCashTips acc) \<rparr>)"

text \<open>\<open>for (const s of sales) { ... }\<close>\<close>

fun sales_loop :: "product_sale_row list \<Rightarrow> totals \<Rightarrow> totals" where
  "sales_loop [] acc = acc"
| "sales_loop (s # ss) acc =
     sales_loop ss
       (acc\<lparr> totalProductCommissions :=
               js_add (totalProductCommissions acc) (js_or (commission_amount s) (Num 0)) \<rparr>)"

text \<open>The two child queries of the loop body, by \<open>time_entry_id = entry.id\<close>.\<close>

definition clients_of :: "database \<Rightarrow> time_entry_row \<Rightarrow> client_entry_row list" where
  "clients_of db entry = getAll (\<lambda>c. ce_time_entry_id c = te_id entry) (client_entries db)"

definition sales_of :: "database \<Rightarrow> time_entry_row \<Rightarrow> product_sale_row list" where
  "sales_of db entry = getAll (\<lambda>s. ps_time_entry_id s = te_id entry) (product_sales db)"

text \<open>\<open>for (const entry of entries) { totalHours += entry.hours; ... }\<close>\<close>

fun entries_loop :: "database \<Rightarrow> time_entry_row list \<Rightarrow> totals \<Rightarrow> totals" where
  "entries_loop db [] acc = acc"
| "entries_loop db (entry # es) acc =
     entries_loop db es
       (sales_loop (sales_of db entry)
         (clients_loop (clients_of db entry)
           (acc\<lparr> totalHours := js_add (totalHours acc) (hours entry) \<rparr>)))"

definition zero_totals :: totals where
  "zero_totals =
     \<lparr> totalHours = Num 0, totalCommissions = Num 0, totalTips = Num 0,
       totalCashTips = Num 0, totalProductCommissions = Num 0 \<rparr>"

text \<open>The numeric part of the response.\<close>

record summary =
  sum_totalHours :: jsval
  sum_totalWages :: jsval
  sum_totalCommissions :: jsval
  sum_totalTips :: jsval
  sum_totalCashTips :: jsval
  sum_totalProductCommissions :: jsval
  sum_totalPayable :: jsval
  sum_hourlyWage :: jsval

text \<open>
  \<open>employee?.hourly_wage || 0\<close>: the employee is \<open>null\<close> when the lookup finds no row.
\<close>

definition hourlyWage_of :: "employee_row option \<Rightarrow> jsval" where
  "hourlyWage_of employee =
     js_or (case employee of None \<Rightarrow> Undefined | Some e \<Rightarrow> hourly_wage e) (Num 0)"

definition summarize :: "database \<Rightarrow> employee_row option \<Rightarrow> time_entry_row list \<Rightarrow> summary" where
  "summarize db employee entries =
     (let acc = entries_loop db entries zero_totals;
          hourlyWage = hourlyWage_of employee;
          totalWages = js_mul (totalHours acc) hourlyWage
      in \<lparr> sum_totalHours = totalHours acc,
           sum_totalWages = totalWages,
           sum_totalCommissions = totalCommissions acc,
           sum_totalTips = totalTips acc,
           sum_totalCashTips = totalCashTips acc,
           sum_totalProductCommissions = totalProductCommissions acc,
           sum_totalPayable =
             js_sub (js_add (js_add (js_add totalWages (totalCommissions acc)) (totalTips acc))
                            (totalProductCommissions acc))
                    (totalCashTips acc),
           sum_hourlyWage = hourlyWage \<rparr>)"

text \<open>
  The reads of the route for one employee and one period, given as the two stored
  date texts: the employee by id, the entries of the period in ascending date order.
\<close>

definition period_entries :: "database \<Rightarrow> int \<Rightarrow> string \<Rightarrow> string \<Rightarrow> time_entry_row list" where
  "period_entries db employeeId startDate endDate =
     sort_key te_date
       (getAll (\<lambda>e. te_employee_id e = employeeId \<and> startDate \<le> te_date e \<and> te_date e \<le> endDate)
          (time_entries db))"

definition pay_period_summary :: "database \<Rightarrow> int \<Rightarrow> string \<Rightarrow> string \<Rightarrow> summary" where
  "pay_period_summary db employeeId startDate endDate =
     summarize db (getOne (\<lambda>e. emp_id e = employeeId) (employees db))
       (period_entries db employeeId startDate endDate)"

section \<open>Reading the totals\<close>

text \<open>
  The real number a value stands for in arithmetic (\<open>0\<close> where \<open>ToNumber\<close> gives NaN),
  and the number that \<open>v || 0\<close> contributes to a running total.
\<close>

definition number_of :: "jsval \<Rightarrow> real" where
  "number_of v = (case ToNumber v of None \<Rightarrow> 0 | Some x \<Rightarrow> x)"

definition or_zero :: "jsval \<Rightarrow> real" where
  "or_zero v = number_of (js_or v (Num 0))"





text \<open>A field is missing when the row has no value for it; such a field written as zero.\<close>

definition missing :: "jsval \<Rightarrow> bool" where
  "missing v = (v = Undefined \<or> v = Null)"

definition zero_missing :: "jsval \<Rightarrow> jsval" where
  "zero_missing v = (if missing v then Num 0 else v)"


definition zero_missing_wage :: "employee_row \<Rightarrow> employee_row" where
  "zero_missing_wage e = e\<lparr> hourly_wage := zero_missing (hourly_wage e) \<rparr>"


text \<open>
  The scenario of the specification: a wage of 20, one entry of 8 hours with one client
  (50 earned, a cash tip of 20) and one product sale (commission 15).
\<close>

definition scenario_employee :: employee_row where
  "scenario_employee = \<lparr> emp_id = 1, hourly_wage = Num 20 \<rparr>"

definition scenario_db :: database where
  "scenario_db =
     \<lparr> employees = [scenario_employee],
       time_entries = [\<lparr> te_id = 7, te_employee_id = 1, te_date = ''2026-02-03'', hours = Num 8 \<rparr>],
       client_entries = [\<lparr> ce_id = 1, ce_time_entry_id = 7, amount_earned = Num 50,
                            tip_amount = Num 20, tip_received_cash = Bool True \<rparr>],
       product_sales = [\<lparr> ps_id = 1, ps_time_entry_id = 7, commission_amount = Num 15 \<rparr>],
       invoices = [] \<rparr>"

text \<open>
  The same day with gaps: no wage on the employee, a null number of hours, a client row
  without an amount and with a null tip, a sale without a commission.
\<close>

definition gaps_employee :: employee_row where
  "gaps_employee = \<lparr> emp_id = 1, hourly_wage = Null \<rparr>"

definition gaps_db :: database where
  "gaps_db =
     \<lparr> employees = [gaps_employee],
       time_entries = [\<lparr> te_id = 7, te_employee_id = 1, te_date = ''2026-02-03'', hours = Null \<rparr>,
                       \<lparr> te_id = 8, te_employee_id = 1, te_date = ''2026-02-04'', hours = Num 6 \<rparr>],
       client_entries = [\<lparr> ce_id = 1, ce_time_entry_id = 7, amount_earned = Undefined,
                            tip_amount = Null, tip_received_cash = Bool True \<rparr>,
                         \<lparr> ce_id = 2, ce_time_entry_id = 8, amount_earned = Num 50,
                            tip_amount = Undefined, tip_received_cash = Undefined \<rparr>],
       product_sales = [\<lparr> ps_id = 1, ps_time_entry_id = 7, commission_amount = Undefined \<rparr>],
       invoices = [] \<rparr>"


section \<open>Deleting a time entry\<close>

text \<open>
  \<open>DELETE /api/time-entry/:id\<close>.  A \<open>DELETE ... WHERE\<close> keeps the rows the clause does
  not select.  The route first looks the entry up by id and owner; the lookup is
  \<open>getOne\<close> in src/server.js and a \<open>.single()\<close> query in the Supabase port, so it is a
  parameter here.  Then come three statements, in the order of the source.
\<close>

type_synonym 'r lookup = "('r \<Rightarrow> bool) \<Rightarrow> 'r list \<Rightarrow> 'r option"

definition delete_where :: "('r \<Rightarrow> bool) \<Rightarrow> 'r list \<Rightarrow> 'r list" where
  "delete_where wh rows = filter (\<lambda>r. \<not> wh r) rows"

definition delete_product_sales :: "int \<Rightarrow> database \<Rightarrow> database" where
  "delete_product_sales i db =
     db\<lparr> product_sales := delete_where (\<lambda>s. ps_time_entry_id s = i) (product_sales db) \<rparr>"

definition delete_client_entries :: "int \<Rightarrow> database \<Rightarrow> database" where
  "delete_client_entries i db =
     db\<lparr> client_entries := delete_where (\<lambda>c. ce_time_entry_id c = i) (client_entries db) \<rparr>"

definition delete_time_entries :: "int \<Rightarrow> database \<Rightarrow> database" where
  "delete_time_entries i db =
     db\<lparr> time_entries := delete_where (\<lambda>e. te_id e = i) (time_entries db) \<rparr>"

text \<open>The stores the three statements leave behind, one after the other.\<close>

definition delete_statements :: "int \<Rightarrow> database \<Rightarrow> database list" where
  "delete_statements i db =
     (let db1 = delete_product_sales i db;
          db2 = delete_client_entries i db1;
          db3 = delete_time_entries i db2
      in [db1, db2, db3])"

datatype delete_response = NotAuthorized | Deleted

definition delete_time_entry ::
  "time_entry_row lookup \<Rightarrow> int \<Rightarrow> int \<Rightarrow> database \<Rightarrow> delete_response \<times> database" where
  "delete_time_entry lookup i employeeId db =
     (case lookup (\<lambda>e. te_id e = i \<and> te_employee_id e = employeeId) (time_entries db) of
        None \<Rightarrow> (NotAuthorized, db)
      | Some entry \<Rightarrow> (Deleted, last (delete_statements i db)))"

text \<open>A child row of entry \<open>i\<close> is an orphan in a store that has no entry \<open>i\<close>.\<close>

definition has_entry :: "int \<Rightarrow> database \<Rightarrow> bool" where
  "has_entry i db = (filter (\<lambda>e. te_id e = i) (time_entries db) \<noteq> [])"

definition has_children :: "int \<Rightarrow> database \<Rightarrow> bool" where
  "has_children i db =
     (filter (\<lambda>s. ps_time_entry_id s = i) (product_sales db) \<noteq> [] \<or>
      filter (\<lambda>c. ce_time_entry_id c = i) (client_entries db) \<noteq> [])"

definition orphans :: "int \<Rightarrow> database \<Rightarrow> bool" where
  "orphans i db = (has_children i db \<and> \<not> has_entry i db)"

section \<open>Submitting an invoice\<close>

text \<open>
  \<open>POST /api/submit-invoice\<close>: the body of the request, the check for an invoice of the
  same employee and period, and the insert.  The new row gets the next id.  Sending the
  mail and the \<open>email_sent\<close> column are left out.
\<close>

record invoice_request =
  req_employeeId :: int
  req_periodStart :: string
  req_periodEnd :: string
  req_totalHours :: jsval
  req_totalWages :: jsval
  req_totalCommissions :: jsval
  req_totalTips :: jsval
  req_totalCashTips :: jsval
  req_totalProductCommissions :: jsval
  req_totalPayable :: jsval

definition same_period :: "int \<Rightarrow> string \<Rightarrow> string \<Rightarrow> invoice_row \<Rightarrow> bool" where
  "same_period e s t row =
     (inv_employee_id row = e \<and> pay_period_start row = s \<and> pay_period_end row = t)"

definition existing_invoice ::
  "invoice_row lookup \<Rightarrow> database \<Rightarrow> int \<Rightarrow> string \<Rightarrow> string \<Rightarrow> invoice_row option" where
  "existing_invoice lookup db e s t = lookup (same_period e s t) (invoices db)"

definition next_id :: "invoice_row list \<Rightarrow> int" where
  "next_id rows = fold max (map inv_id rows) 0 + 1"

definition invoice_of :: "int \<Rightarrow> invoice_request \<Rightarrow> invoice_row" where
  "invoice_of i req =
     \<lparr> inv_id = i, inv_employee_id = req_employeeId req,
       pay_period_start = req_periodStart req, pay_period_end = req_periodEnd req,
       total_hours = req_totalHours req, total_wages = req_totalWages req,
       total_commissions = req_totalCommissions req, total_tips = req_totalTips req,
       total_product_commissions = req_totalProductCommissions req,
       cash_tips_received = req_totalCashTips req, total_payable = req_totalPayable req \<rparr>"

datatype submit_response = AlreadySubmitted | InvoiceSubmitted int

definition submit_invoice ::
  "invoice_row lookup \<Rightarrow> invoice_request \<Rightarrow> database \<Rightarrow> submit_response \<times> database" where
  "submit_invoice lookup req db =
     (case existing_invoice lookup db (req_employeeId req) (req_periodStart req) (req_periodEnd req) of
        Some existing \<Rightarrow> (AlreadySubmitted, db)
      | None \<Rightarrow>
          (InvoiceSubmitted (next_id (invoices db)),
           db\<lparr> invoices := invoices db @ [invoice_of (next_id (invoices db)) req] \<rparr>))"

text \<open>
  A request for the first half of February 2026 and stores with no, one and two
  invoices of that employee and period.
\<close>

definition february_request :: invoice_request where
  "february_request =
     \<lparr> req_employeeId = 1, req_periodStart = ''2026-02-01'', req_periodEnd = ''2026-02-15'',
       req_totalHours = Num 8, req_totalWages = Num 160, req_totalCommissions = Num 50,
       req_totalTips = Num 20, req_totalCashTips = Num 20,
       req_totalProductCommissions = Num 15, req_totalPayable = Num 225 \<rparr>"

definition once_submitted_db :: database where
  "once_submitted_db = scenario_db\<lparr> invoices := [invoice_of 1 february_request] \<rparr>"

definition twice_submitted_db :: database where
  "twice_submitted_db =
     scenario_db\<lparr> invoices := [invoice_of 1 february_request, invoice_of 2 february_request] \<rparr>"

section \<open>Dates of the runtime\<close>

text \<open>
  A JavaScript \<open>Date\<close> holds a time value: a whole number of milliseconds since
  1970-01-01T00:00:00Z, or NaN (\<open>None\<close>, an invalid date).  The functions below are the
  abstract operations of the language standard for days, years, months and dates, over
  integers.  The numbers the date methods take and return are integers or NaN.
\<close>

type_synonym timevalue = "int option"

type_synonym number = "int option"

definition msPerDay :: int where
  "msPerDay = 86400000"

definition Day :: "int \<Rightarrow> int" where
  "Day t = t div msPerDay"

definition TimeWithinDay :: "int \<Rightarrow> int" where
  "TimeWithinDay t = t mod msPerDay"

definition DaysInYear :: "int \<Rightarrow> int" where
  "DaysInYear y =
     (if y mod 4 \<noteq> 0 then 365 else if y mod 100 \<noteq> 0 then 366
      else if y mod 400 \<noteq> 0 then 365 else 366)"

definition DayFromYear :: "int \<Rightarrow> int" where
  "DayFromYear y = 365 * (y - 1970) + (y - 1969) div 4 - (y - 1901) div 100 + (y - 1601) div 400"

text \<open>
  The year of a day is the largest \<open>y\<close> with \<open>DayFromYear y \<le> d\<close>.  It is computed
  from the mean length of a year (146097 days in 400 years), corrected by one year
  where the estimate is off.
\<close>

definition YearFromDay :: "int \<Rightarrow> int" where
  "YearFromDay d =
     (let y = 1970 + (400 * d) div 146097
      in if d < DayFromYear y then y - 1
         else if DayFromYear (y + 1) \<le> d then y + 1
         else y)"

definition InLeapYear :: "int \<Rightarrow> int" where
  "InLeapYear y = (if DaysInYear y = 366 then 1 else 0)"

definition DayWithinYear :: "int \<Rightarrow> int" where
  "DayWithinYear d = d - DayFromYear (YearFromDay d)"

text \<open>
  The day within the year on which month \<open>m\<close> (0 to 11) starts; for \<open>m = 12\<close>, the
  length of the year.
\<close>

definition FirstDayOfMonth :: "int \<Rightarrow> int \<Rightarrow> int" where
  "FirstDayOfMonth leap m =
     (if m = 0 then 0 else if m = 1 then 31 else if m = 2 then 59 + leap
      else if m = 3 then 90 + leap else if m = 4 then 120 + leap
      else if m = 5 then 151 + leap else if m = 6 then 181 + leap
      else if m = 7 then 212 + leap else if m = 8 then 243 + leap
      else if m = 9 then 273 + leap else if m = 10 then 304 + leap
      else if m = 11 then 334 + leap else 365 + leap)"

definition MonthFromDay :: "int \<Rightarrow> int" where
  "MonthFromDay d =
     (let w = DayWithinYear d; leap = InLeapYear (YearFromDay d)
      in if w < 31 then 0 else if w < 59 + leap then 1 else if w < 90 + leap then 2
         else if w < 120 + leap then 3 else if w < 151 + leap then 4
         else if w < 181 + leap then 5 else if w < 212 + leap then 6
         else if w < 243 + leap then 7 else if w < 273 + leap then 8
         else if w < 304 + leap then 9 else if w < 334 + leap then 10 else 11)"

definition DateFromDay :: "int \<Rightarrow> int" where
  "DateFromDay d =
     DayWithinYear d - FirstDayOfMonth (InLeapYear (YearFromDay d)) (MonthFromDay d) + 1"

definition YearFromTime :: "int \<Rightarrow> int" where
  "YearFromTime t = YearFromDay (Day t)"

definition MonthFromTime :: "int \<Rightarrow> int" where
  "MonthFromTime t = MonthFromDay (Day t)"

definition DateFromTime :: "int \<Rightarrow> int" where
  "DateFromTime t = DateFromDay (Day t)"

text \<open>
  \<open>MakeDay\<close> accepts any month and date: months beyond 0 to 11 carry into the year,
  dates beyond the month carry into the neighbouring months.
\<close>

definition MakeDay :: "int \<Rightarrow> int \<Rightarrow> int \<Rightarrow> int" where
  "MakeDay year month date =
     (let ym = year + month div 12; mn = month mod 12
      in DayFromYear ym + FirstDayOfMonth (InLeapYear ym) mn + date - 1)"

definition MakeDate :: "int \<Rightarrow> int \<Rightarrow> int" where
  "MakeDate day time = day * msPerDay + time"

definition TimeClip :: "int \<Rightarrow> timevalue" where
  "TimeClip t = (if \<bar>t\<bar> \<le> 8640000000000000 then Some t else None)"

text \<open>
  The runtime: its offset from UTC in milliseconds (one fixed offset; daylight saving
  changes are not modelled), its clock, and what \<open>Date.parse\<close> makes of the strings
  the standard leaves to the implementation.
\<close>

record runtime =
  LocalTZA :: int
  now :: int
  parse_other :: "string \<Rightarrow> timevalue"

definition LocalTime :: "runtime \<Rightarrow> int \<Rightarrow> int" where
  "LocalTime rt t = t + LocalTZA rt"

definition UTC :: "runtime \<Rightarrow> int \<Rightarrow> int" where
  "UTC rt t = t - LocalTZA rt"

text \<open>
  \<open>new Date(year, month, date)\<close>: a year from 0 to 99 stands for 1900 + year; the
  result is the local midnight of the day, or invalid when an argument is NaN or the
  time is out of range.
\<close>

definition MakeFullYear :: "int \<Rightarrow> int" where
  "MakeFullYear y = (if 0 \<le> y \<and> y \<le> 99 then 1900 + y else y)"

definition new_Date_ymd :: "runtime \<Rightarrow> number \<Rightarrow> number \<Rightarrow> number \<Rightarrow> timevalue" where
  "new_Date_ymd rt year month date =
     (case year of None \<Rightarrow> None | Some y \<Rightarrow>
      (case month of None \<Rightarrow> None | Some m \<Rightarrow>
       (case date of None \<Rightarrow> None | Some dt \<Rightarrow>
          TimeClip (UTC rt (MakeDate (MakeDay (MakeFullYear y) m dt) 0)))))"

definition getFullYear :: "runtime \<Rightarrow> timevalue \<Rightarrow> number" where
  "getFullYear rt d = map_option (\<lambda>t. YearFromTime (LocalTime rt t)) d"

definition getMonth :: "runtime \<Rightarrow> timevalue \<Rightarrow> number" where
  "getMonth rt d = map_option (\<lambda>t. MonthFromTime (LocalTime rt t)) d"

definition getDate :: "runtime \<Rightarrow> timevalue \<Rightarrow> number" where
  "getDate rt d = map_option (\<lambda>t. DateFromTime (LocalTime rt t)) d"


text \<open>\<open>a + b\<close>, \<open>a - b\<close> and \<open>a <= b\<close> on these numbers.\<close>

definition num_add :: "number \<Rightarrow> int \<Rightarrow> number" where
  "num_add a b = map_option (\<lambda>x. x + b) a"


definition num_le :: "number \<Rightarrow> int \<Rightarrow> bool" where
  "num_le a b = (case a of None \<Rightarrow> False | Some x \<Rightarrow> x \<le> b)"

section \<open>The civil calendar\<close>

text \<open>
  The Gregorian calendar as the claims speak of it: leap years, the length of a month
  (months are numbered from 0, as \<open>getMonth\<close> numbers them), and the dates that exist.
\<close>

definition leap_year :: "int \<Rightarrow> bool" where
  "leap_year y = (y mod 4 = 0 \<and> (y mod 100 \<noteq> 0 \<or> y mod 400 = 0))"

definition DaysInMonth :: "int \<Rightarrow> int \<Rightarrow> int" where
  "DaysInMonth y m =
     (if m = 1 then (if leap_year y then 29 else 28)
      else if m = 3 \<or> m = 5 \<or> m = 8 \<or> m = 10 then 30 else 31)"

definition real_date :: "int \<Rightarrow> int \<Rightarrow> int \<Rightarrow> bool" where
  "real_date y m d = (0 \<le> m \<and> m \<le> 11 \<and> 1 \<le> d \<and> d \<le> DaysInMonth y m)"

section \<open>Parsing and printing dates\<close>

text \<open>
  The date-only test of \<open>toLocalDate\<close>, \<open>/^\d{4}-\d{2}-\d{2}$/\<close>: ten characters, digits
  but for the two hyphens.
\<close>

definition is_digit :: "char \<Rightarrow> bool" where
  "is_digit c = (c \<in> set ''0123456789'')"

definition date_only_format :: "string \<Rightarrow> bool" where
  "date_only_format s =
     (length s = 10 \<and> list_all is_digit (take 4 s) \<and> s ! 4 = CHR ''-'' \<and>
      list_all is_digit (take 2 (drop 5 s)) \<and> s ! 7 = CHR ''-'' \<and>
      list_all is_digit (drop 8 s))"

definition digit_value :: "char \<Rightarrow> int" where
  "digit_value c = int (of_char c) - 48"

definition decimal :: "string \<Rightarrow> int" where
  "decimal s = foldl (\<lambda>n c. 10 * n + digit_value c) 0 s"

text \<open>
  \<open>Date.parse\<close> on a string whose first ten characters are in the date-only format, as
  Node's engine reads it: the month is 01 to 12 and the day 01 to 31, or the date is
  invalid; a day beyond the length of the month carries into the next month.  The
  offset is that of the time zone the string is read in.
\<close>

definition parse_iso_date :: "int \<Rightarrow> string \<Rightarrow> timevalue" where
  "parse_iso_date offset s =
     (let y = decimal (take 4 s); m = decimal (take 2 (drop 5 s)); d = decimal (take 2 (drop 8 s))
      in if 1 \<le> m \<and> m \<le> 12 \<and> 1 \<le> d \<and> d \<le> 31
         then TimeClip (MakeDate (MakeDay y (m - 1) d) 0 - offset)
         else None)"

text \<open>
  A date-only string is UTC midnight; the same string followed by \<open>T00:00:00\<close> is
  local midnight; every other string is left to the runtime.
\<close>

definition Date_parse :: "runtime \<Rightarrow> string \<Rightarrow> timevalue" where
  "Date_parse rt s =
     (if date_only_format s then parse_iso_date 0 s
      else if date_only_format (take 10 s) \<and> drop 10 s = ''T00:00:00''
      then parse_iso_date (LocalTZA rt) s
      else parse_other rt s)"

text \<open>What the period helpers are handed: a \<open>Date\<close>, a string or a (whole) number.\<close>

datatype date_input = DateObject timevalue | DateString string | DateNumber int

text \<open>\<open>new Date(value)\<close>\<close>

definition new_Date :: "runtime \<Rightarrow> date_input \<Rightarrow> timevalue" where
  "new_Date rt v =
     (case v of DateObject t \<Rightarrow> t | DateString s \<Rightarrow> Date_parse rt s | DateNumber n \<Rightarrow> TimeClip n)"

text \<open>\<open>toLocalDate\<close> of src/lib/pay-periods.js\<close>

definition toLocalDate :: "runtime \<Rightarrow> date_input \<Rightarrow> timevalue" where
  "toLocalDate rt date =
     (case date of
        DateString s \<Rightarrow>
          if date_only_format s then new_Date rt (DateString (s @ ''T00:00:00''))
          else new_Date rt date
      | _ \<Rightarrow> new_Date rt date)"

text \<open>\<open>String(n)\<close> for a number of the date methods, and \<open>padStart(n, '0')\<close>.\<close>

definition digit_char :: "nat \<Rightarrow> char" where
  "digit_char n = ''0123456789'' ! n"

fun string_of_nat :: "nat \<Rightarrow> string" where
  "string_of_nat n =
     (if n < 10 then [digit_char n]
      else string_of_nat (n div 10) @ [digit_char (n mod 10)])"

definition String :: "number \<Rightarrow> string" where
  "String x =
     (case x of
        None \<Rightarrow> ''NaN''
      | Some i \<Rightarrow> if i < 0 then CHR ''-'' # string_of_nat (nat (- i)) else string_of_nat (nat i))"

definition padStart :: "nat \<Rightarrow> string \<Rightarrow> string" where
  "padStart n s = replicate (n - length s) CHR ''0'' @ s"

section \<open>The period calculator\<close>

datatype error = InvalidDate

record period =
  period_start :: timevalue
  period_end :: timevalue

text \<open>
  The body of \<open>getPayPeriod\<close> after the date has been read: the same in
  src/lib/pay-periods.js and in the two server files.
\<close>

definition period_around :: "runtime \<Rightarrow> timevalue \<Rightarrow> period" where
  "period_around rt d =
     (let year = getFullYear rt d; month = getMonth rt d; day = getDate rt d
      in if num_le day 15
         then \<lparr> period_start = new_Date_ymd rt year month (Some 1),
                period_end = new_Date_ymd rt year month (Some 15) \<rparr>
         else
           (let lastDay = getDate rt (new_Date_ymd rt year (num_add month 1) (Some 0))
            in \<lparr> period_start = new_Date_ymd rt year month (Some 16),
                 period_end = new_Date_ymd rt year month lastDay \<rparr>))"

text \<open>\<open>getPayPeriod\<close> of src/lib/pay-periods.js throws on an invalid date.\<close>

definition getPayPeriod :: "runtime \<Rightarrow> date_input \<Rightarrow> error + period" where
  "getPayPeriod rt date =
     (let d = toLocalDate rt date
      in if d = None then Inl InvalidDate else Inr (period_around rt d))"

text \<open>\<open>getPayPeriod\<close> of the server files reads the date with \<open>new Date\<close> and checks nothing.\<close>

definition getPayPeriod_server :: "runtime \<Rightarrow> date_input \<Rightarrow> period" where
  "getPayPeriod_server rt date = period_around rt (new_Date rt date)"

text \<open>\<open>formatDateForDB\<close> of src/lib/pay-periods.js\<close>

definition formatDateForDB :: "runtime \<Rightarrow> date_input \<Rightarrow> error + string" where
  "formatDateForDB rt date =
     (let d = toLocalDate rt date
      in if d = None then Inl InvalidDate
         else
           (let year = getFullYear rt d;
                month = padStart 2 (String (num_add (getMonth rt d) 1));
                day = padStart 2 (String (getDate rt d))
            in Inr (String year @ ''-'' @ month @ ''-'' @ day)))"

text \<open>
  \<open>formatDateForDB\<close> of the server files is \<open>date.toISOString().split('T')[0]\<close>: the
  date in UTC, with a year of four digits from 0 to 9999 and a sign and six digits
  beyond.  \<open>toISOString\<close> throws a \<open>RangeError\<close> on an invalid date (\<open>None\<close>).
\<close>

definition iso_year :: "int \<Rightarrow> string" where
  "iso_year y =
     (if 0 \<le> y \<and> y \<le> 9999 then padStart 4 (String (Some y))
      else (if y < 0 then ''-'' else ''+'') @ padStart 6 (String (Some \<bar>y\<bar>)))"

definition formatDateForDB_server :: "timevalue \<Rightarrow> string option" where
  "formatDateForDB_server date =
     (case date of
        None \<Rightarrow> None
      | Some t \<Rightarrow>
          Some (iso_year (YearFromTime t) @ ''-'' @
                padStart 2 (String (Some (MonthFromTime t + 1))) @ ''-'' @
                padStart 2 (String (Some (DateFromTime t)))))"



section \<open>Periods, as the claims speak of them\<close>

text \<open>
  The time value of the local midnight that starts the civil date \<open>(y, m, d)\<close> in the
  zone of the runtime (the month counted from 0), and the civil date of a time value.
\<close>

definition local_midnight :: "runtime \<Rightarrow> int \<Rightarrow> int \<Rightarrow> int \<Rightarrow> int" where
  "local_midnight rt y m d = UTC rt (MakeDate (MakeDay y m d) 0)"

definition local_year :: "runtime \<Rightarrow> int \<Rightarrow> int" where
  "local_year rt t = YearFromTime (LocalTime rt t)"

definition local_month :: "runtime \<Rightarrow> int \<Rightarrow> int" where
  "local_month rt t = MonthFromTime (LocalTime rt t)"

definition local_date :: "runtime \<Rightarrow> int \<Rightarrow> int" where
  "local_date rt t = DateFromTime (LocalTime rt t)"

definition local_day :: "runtime \<Rightarrow> int \<Rightarrow> int" where
  "local_day rt t = Day (LocalTime rt t)"

text \<open>
  A zone is at most a day away from UTC.  The years the period helpers handle as
  calendar years: not 0 to 99, which \<open>new Date(year, month, date)\<close> reads as 1900 to
  1999, and with every day inside the range of time values.
\<close>

definition zone_ok :: "runtime \<Rightarrow> bool" where
  "zone_ok rt = (\<bar>LocalTZA rt\<bar> \<le> msPerDay)"

definition supported_year :: "int \<Rightarrow> bool" where
  "supported_year y = ((y < 0 \<or> 99 < y) \<and> - 271820 \<le> y \<and> y \<le> 275759)"

text \<open>The semi-monthly period of the civil date \<open>(y, m, d)\<close>.\<close>

definition period_of_civil :: "runtime \<Rightarrow> int \<Rightarrow> int \<Rightarrow> int \<Rightarrow> period" where
  "period_of_civil rt y m d =
     (if d \<le> 15
      then \<lparr> period_start = Some (local_midnight rt y m 1),
             period_end = Some (local_midnight rt y m 15) \<rparr>
      else \<lparr> period_start = Some (local_midnight rt y m 16),
             period_end = Some (local_midnight rt y m (DaysInMonth y m)) \<rparr>)"

text \<open>
  Periods in a row: period \<open>k\<close> is the first (\<open>k\<close> even) or second half of month
  \<open>k div 2 mod 12\<close> of year \<open>k div 24\<close>.
\<close>

definition period_number :: "runtime \<Rightarrow> int \<Rightarrow> int" where
  "period_number rt t =
     24 * local_year rt t + 2 * local_month rt t + (if local_date rt t \<le> 15 then 0 else 1)"

definition nth_period :: "runtime \<Rightarrow> int \<Rightarrow> period" where
  "nth_period rt k =
     period_of_civil rt (k div 24) (k mod 24 div 2) (if k mod 2 = 0 then 1 else 16)"

text \<open>
  The first and the last day of period \<open>k\<close>, as day numbers, and the periods whose
  year is from 100 to 275759.
\<close>

definition first_day :: "int \<Rightarrow> int" where
  "first_day k = MakeDay (k div 24) (k mod 24 div 2) (if k mod 2 = 0 then 1 else 16)"

definition last_day :: "int \<Rightarrow> int" where
  "last_day k =
     MakeDay (k div 24) (k mod 24 div 2)
       (if k mod 2 = 0 then 15 else DaysInMonth (k div 24) (k mod 24 div 2))"

text \<open>The period a day number falls in, and the local midnight that starts a day.\<close>

definition day_period :: "int \<Rightarrow> int" where
  "day_period N =
     24 * YearFromDay N + 2 * MonthFromDay N + (if DateFromDay N \<le> 15 then 0 else 1)"

definition day_start :: "runtime \<Rightarrow> int \<Rightarrow> int" where
  "day_start rt N = UTC rt (MakeDate N 0)"


text \<open>
  A runtime on Pacific Standard Time whose clock reads 2026-02-02T02:40:00Z (the
  evening of February 1st there) and that parses none of the free-form strings, and
  the same runtime with its clock in January of the year 100.
\<close>

definition pacific :: runtime where
  "pacific = \<lparr> LocalTZA = - 28800000, now = 1770000000000, parse_other = (\<lambda>s. None) \<rparr>"


text \<open>
  The three numbers a date-only string spells, and the strings that spell a real
  calendar date (the month of the string counts from 1).
\<close>

definition year_of_string :: "string \<Rightarrow> int" where
  "year_of_string s = decimal (take 4 s)"

definition month_of_string :: "string \<Rightarrow> int" where
  "month_of_string s = decimal (take 2 (drop 5 s))"

definition day_of_string :: "string \<Rightarrow> int" where
  "day_of_string s = decimal (take 2 (drop 8 s))"

definition real_date_string :: "string \<Rightarrow> bool" where
  "real_date_string s =
     (date_only_format s \<and>
      real_date (year_of_string s) (month_of_string s - 1) (day_of_string s))"

text \<open>A runtime one hour east of UTC.\<close>

definition central_european :: runtime where
  "central_european = pacific\<lparr> LocalTZA := 3600000 \<rparr>"

section \<open>The loops of the summary compute sums\<close>






lemma or_zero_Num [simp]: "or_zero (Num x) = x"
  by (simp add: or_zero_def number_of_def js_or_def)

lemma number_of_Num [simp]: "number_of (Num x) = x"
  by (simp add: number_of_def)








section \<open>Cash tips never exceed tips\<close>





section \<open>Missing fields\<close>

lemma or_zero_zero_missing [simp]: "or_zero (zero_missing v) = or_zero v"
  by (cases v) (simp_all add: zero_missing_def missing_def or_zero_def js_or_def number_of_def)

lemma number_of_zero_missing [simp]: "number_of (zero_missing v) = number_of v"
  by (cases v) (simp_all add: zero_missing_def missing_def number_of_def)


lemma hourlyWage_of_zero_missing [simp]:
  "hourlyWage_of (map_option zero_missing_wage employee) = hourlyWage_of employee"
proof (cases employee)
  case None
  then show ?thesis by simp
next
  case (Some e)
  then show ?thesis
    by (cases "hourly_wage e")
       (simp_all add: hourlyWage_of_def zero_missing_wage_def zero_missing_def missing_def js_or_def)
qed







section \<open>Deleting a time entry: children first, nothing else touched\<close>

lemma delete_statements_trace:
  "delete_statements i db =
     [db\<lparr> product_sales := filter (\<lambda>s. ps_time_entry_id s \<noteq> i) (product_sales db) \<rparr>,
      db\<lparr> product_sales := filter (\<lambda>s. ps_time_entry_id s \<noteq> i) (product_sales db),
          client_entries := filter (\<lambda>c. ce_time_entry_id c \<noteq> i) (client_entries db) \<rparr>,
      db\<lparr> product_sales := filter (\<lambda>s. ps_time_entry_id s \<noteq> i) (product_sales db),
          client_entries := filter (\<lambda>c. ce_time_entry_id c \<noteq> i) (client_entries db),
          time_entries := filter (\<lambda>e. te_id e \<noteq> i) (time_entries db) \<rparr>]"
  by (simp add: delete_statements_def delete_product_sales_def delete_client_entries_def
      delete_time_entries_def delete_where_def Let_def)

lemma lookup_Some_has_entry:
  assumes "lookup = getOne \<or> lookup = single"
    and "lookup (\<lambda>e. te_id e = i \<and> te_employee_id e = employeeId) (time_entries db) = Some entry"
  shows "has_entry i db"
proof -
  have "filter (\<lambda>e. te_id e = i \<and> te_employee_id e = employeeId) (time_entries db) \<noteq> []"
    using assms by (auto simp add: getOne_def getAll_def single_def split: list.splits)
  then obtain e where "e \<in> set (time_entries db)" "te_id e = i"
    by (auto simp add: filter_empty_conv)
  then show ?thesis
    by (auto simp add: has_entry_def filter_empty_conv)
qed

text \<open>
  Claim C8.  When the ownership lookup finds the entry, deleting time entry \<open>i\<close> runs
  three statements in this order: it removes every product sale whose time_entry_id is
  \<open>i\<close>, then every client entry whose time_entry_id is \<open>i\<close>, then the entry row itself.
  No store on the way holds a child row of \<open>i\<close> without the entry row, and the final
  store holds neither.  The rows of other time entries, the invoices and the employees
  are as they were.
\<close>

theorem delete_time_entry_cascade:
  assumes "lookup = getOne \<or> lookup = single"
    and "lookup (\<lambda>e. te_id e = i \<and> te_employee_id e = employeeId) (time_entries db) = Some entry"
  shows "delete_time_entry lookup i employeeId db =
           (Deleted,
            db\<lparr> product_sales := filter (\<lambda>s. ps_time_entry_id s \<noteq> i) (product_sales db),
                client_entries := filter (\<lambda>c. ce_time_entry_id c \<noteq> i) (client_entries db),
                time_entries := filter (\<lambda>e. te_id e \<noteq> i) (time_entries db) \<rparr>) \<and>
         delete_statements i db =
           [db\<lparr> product_sales := filter (\<lambda>s. ps_time_entry_id s \<noteq> i) (product_sales db) \<rparr>,
            db\<lparr> product_sales := filter (\<lambda>s. ps_time_entry_id s \<noteq> i) (product_sales db),
                client_entries := filter (\<lambda>c. ce_time_entry_id c \<noteq> i) (client_entries db) \<rparr>,
            snd (delete_time_entry lookup i employeeId db)] \<and>
         list_all (\<lambda>s. \<not> orphans i s) (delete_statements i db) \<and>
         \<not> has_children i (snd (delete_time_entry lookup i employeeId db)) \<and>
         \<not> has_entry i (snd (delete_time_entry lookup i employeeId db)) \<and>
         invoices (snd (delete_time_entry lookup i employeeId db)) = invoices db \<and>
         employees (snd (delete_time_entry lookup i employeeId db)) = employees db"
proof -
  have e: "has_entry i db"
    by (rule lookup_Some_has_entry [OF assms])
  have r: "delete_time_entry lookup i employeeId db = (Deleted, last (delete_statements i db))"
    using assms(2) by (simp add: delete_time_entry_def)
  have o: "list_all (\<lambda>s. \<not> orphans i s) (delete_statements i db)"
    using e unfolding delete_statements_trace
    by (simp add: orphans_def has_entry_def has_children_def)
  show ?thesis
    unfolding r using o unfolding delete_statements_trace
    by (simp add: has_children_def has_entry_def)
qed

theorem delete_time_entry_cascade_witness:
  "delete_time_entry getOne 7 1 gaps_db =
     (Deleted,
      gaps_db\<lparr> product_sales := [],
                client_entries := [\<lparr> ce_id = 2, ce_time_entry_id = 8, amount_earned = Num 50,
                            tip_amount = Undefined, tip_received_cash = Undefined \<rparr>],
                time_entries := [\<lparr> te_id = 8, te_employee_id = 1, te_date = ''2026-02-04'',
                                   hours = Num 6 \<rparr>] \<rparr>)"
proof -
  have h1: "getOne = getOne \<or> getOne = (single :: time_entry_row lookup)" by simp
  have h2: "getOne (\<lambda>e. te_id e = 7 \<and> te_employee_id e = 1) (time_entries gaps_db) =
     Some \<lparr> te_id = 7, te_employee_id = 1, te_date = ''2026-02-03'', hours = Null \<rparr>"
    by (simp add: getOne_def getAll_def gaps_db_def)
  show ?thesis
    using delete_time_entry_cascade [OF h1 h2] by (simp add: gaps_db_def)
qed

section \<open>The check before an invoice is created\<close>

lemma getOne_None_iff: "getOne wh rows = None \<longleftrightarrow> (\<forall>r\<in>set rows. \<not> wh r)"
proof -
  have "getOne wh rows = None \<longleftrightarrow> filter wh rows = []"
    by (simp add: getOne_def getAll_def split: list.splits)
  then show ?thesis
    by (simp add: filter_empty_conv)
qed

lemma single_eq_getOne:
  "length (filter wh rows) \<le> 1 \<Longrightarrow> single wh rows = getOne wh rows"
  by (cases "filter wh rows"; cases "tl (filter wh rows)")
     (auto simp add: single_def getOne_def getAll_def)

text \<open>
  With the lookup of src/server.js the check is the existence of an invoice with the
  same employee, start text and end text, and a second submission changes nothing.
\<close>

lemma submit_invoice_getOne_existence:
  "submit_invoice getOne req db =
     (if \<exists>row\<in>set (invoices db).
            same_period (req_employeeId req) (req_periodStart req) (req_periodEnd req) row
      then (AlreadySubmitted, db)
      else (InvoiceSubmitted (next_id (invoices db)),
            db\<lparr> invoices := invoices db @ [invoice_of (next_id (invoices db)) req] \<rparr>))"
proof (cases "getOne (same_period (req_employeeId req) (req_periodStart req) (req_periodEnd req))
                (invoices db)")
  case None
  then show ?thesis
    using getOne_None_iff [of "same_period (req_employeeId req) (req_periodStart req)
      (req_periodEnd req)" "invoices db"]
    by (simp add: submit_invoice_def existing_invoice_def)
next
  case (Some row)
  then show ?thesis
    using getOne_None_iff [of "same_period (req_employeeId req) (req_periodStart req)
      (req_periodEnd req)" "invoices db"]
    by (auto simp add: submit_invoice_def existing_invoice_def)
qed

text \<open>
  The \<open>.single()\<close> lookup of the Supabase port agrees with it on a store that holds at
  most one invoice of the employee and period.
\<close>

lemma submit_invoice_single_existence:
  assumes "length (filter (same_period (req_employeeId req) (req_periodStart req) (req_periodEnd req))
             (invoices db)) \<le> 1"
  shows "submit_invoice single req db = submit_invoice getOne req db"
  using single_eq_getOne [OF assms] by (simp add: submit_invoice_def existing_invoice_def)

text \<open>
  Claim C5.  The claim reads: the check answers already submitted exactly when an invoice
  with the same employee, period start and period end exists, and then no invoice is
  created.  On a store that already holds two invoices of the employee and period, the
  \<open>.single()\<close> lookup of the Supabase port finds nothing, where \<open>getOne\<close> finds the
  first of them, and the route creates a third invoice.
\<close>

theorem submit_invoice_single_duplicates:
  "existing_invoice getOne twice_submitted_db 1 ''2026-02-01'' ''2026-02-15''
     = Some (invoice_of 1 february_request) \<and>
   existing_invoice single twice_submitted_db 1 ''2026-02-01'' ''2026-02-15'' = None \<and>
   submit_invoice single february_request twice_submitted_db =
     (InvoiceSubmitted 3,
      twice_submitted_db\<lparr> invoices :=
        [invoice_of 1 february_request, invoice_of 2 february_request,
         invoice_of 3 february_request] \<rparr>)"
  by (simp add: submit_invoice_def existing_invoice_def single_def getOne_def getAll_def
      same_period_def twice_submitted_db_def invoice_of_def february_request_def next_id_def)

section \<open>Days and years\<close>

lemma div_bounds:
  fixes x k :: int
  assumes "0 < k"
  shows "k * (x div k) \<le> x" "x < k * (x div k) + k"
proof -
  have "x = k * (x div k) + x mod k" by simp
  moreover have "0 \<le> x mod k" "x mod k < k" using assms by simp_all
  ultimately show "k * (x div k) \<le> x" "x < k * (x div k) + k" by linarith+
qed

lemma div_pred:
  fixes z k :: int
  assumes "0 < k"
  shows "z div k - (z - 1) div k = (if z mod k = 0 then 1 else 0)"
proof (cases "z mod k = 0")
  case True
  have "z - 1 = k * (z div k - 1) + (k - 1)"
    using True mult_div_mod_eq [of k z] by (simp add: algebra_simps)
  then have "(z - 1) div k = z div k - 1"
    using assms by (intro int_div_pos_eq [where r = "k - 1"]) simp_all
  with True show ?thesis by simp
next
  case False
  have r: "0 < z mod k" "z mod k < k"
    using False assms pos_mod_sign [of k z] pos_mod_bound [of k z] by linarith+
  have "z - 1 = k * (z div k) + (z mod k - 1)"
    using mult_div_mod_eq [of k z] by (simp add: algebra_simps)
  then have "(z - 1) div k = z div k"
    using r by (intro int_div_pos_eq [where r = "z mod k - 1"]) simp_all
  with False show ?thesis by simp
qed

lemma mod_diff_dvd:
  fixes y c k :: int
  assumes "k dvd c"
  shows "(y - c) mod k = y mod k"
proof -
  have "(y - c) mod k = (y - c mod k) mod k" by (simp add: mod_diff_right_eq)
  also have "c mod k = 0" using assms by simp
  finally show ?thesis by simp
qed

lemma step4: "(y - 1968) div 4 - (y - 1969) div 4 = (if y mod 4 = 0 then 1 else 0)" for y :: int
  using div_pred [of 4 "y - 1968"] mod_diff_dvd [of 4 1968 y] by simp

lemma step100: "(y - 1900) div 100 - (y - 1901) div 100 = (if y mod 100 = 0 then 1 else 0)" for y :: int
  using div_pred [of 100 "y - 1900"] mod_diff_dvd [of 100 1900 y] by simp

lemma step400: "(y - 1600) div 400 - (y - 1601) div 400 = (if y mod 400 = 0 then 1 else 0)" for y :: int
  using div_pred [of 400 "y - 1600"] mod_diff_dvd [of 400 1600 y] by simp

lemma mod_100_4: "y mod 100 = 0 \<Longrightarrow> y mod 4 = 0" for y :: int
  using mod_mod_cancel [of 4 100 y] by simp

lemma mod_400_100: "y mod 400 = 0 \<Longrightarrow> y mod 100 = 0" for y :: int
  using mod_mod_cancel [of 100 400 y] by simp

lemma DayFromYear_step: "DayFromYear (y + 1) = DayFromYear y + DaysInYear y"
proof -
  define a where "a = (y - 1969) div 4"
  define b where "b = (y - 1901) div 100"
  define c where "c = (y - 1601) div 400"
  define a' where "a' = (y - 1968) div 4"
  define b' where "b' = (y - 1900) div 100"
  define c' where "c' = (y - 1600) div 400"
  have l: "DayFromYear (y + 1) = 365 * (y - 1969) + a' - b' + c'"
    by (simp add: DayFromYear_def a'_def b'_def c'_def)
  have r: "DayFromYear y = 365 * (y - 1970) + a - b + c"
    by (simp add: DayFromYear_def a_def b_def c_def)
  have s4: "a' = a + (if y mod 4 = 0 then 1 else 0)"
    using step4 [of y] by (simp add: a_def a'_def)
  have s100: "b' = b + (if y mod 100 = 0 then 1 else 0)"
    using step100 [of y] by (simp add: b_def b'_def)
  have s400: "c' = c + (if y mod 400 = 0 then 1 else 0)"
    using step400 [of y] by (simp add: c_def c'_def)
  show ?thesis
  proof (cases "y mod 4 = 0")
    case False
    then have "y mod 100 \<noteq> 0" "y mod 400 \<noteq> 0"
      using mod_100_4 [of y] mod_400_100 [of y] by auto
    with False show ?thesis
      unfolding l r s4 s100 s400 by (simp add: DaysInYear_def)
  next
    case 4: True
    show ?thesis
    proof (cases "y mod 100 = 0")
      case False
      then have "y mod 400 \<noteq> 0"
        using mod_400_100 [of y] by auto
      with 4 False show ?thesis
        unfolding l r s4 s100 s400 by (simp add: DaysInYear_def)
    next
      case True
      with 4 show ?thesis
        unfolding l r s4 s100 s400 by (cases "y mod 400 = 0") (simp_all add: DaysInYear_def)
    qed
  qed
qed

lemma DayFromYear_bounds:
  "146097 * (y - 1970) - 506 \<le> 400 * DayFromYear y"
  "400 * DayFromYear y \<le> 146097 * (y - 1970) + 589"
proof -
  define a where "a = (y - 1969) div 4"
  define b where "b = (y - 1901) div 100"
  define c where "c = (y - 1601) div 400"
  have a: "4 * a \<le> y - 1969" "y - 1969 \<le> 4 * a + 3"
    unfolding a_def using div_bounds [of 4 "y - 1969"] by simp_all
  have b: "100 * b \<le> y - 1901" "y - 1901 \<le> 100 * b + 99"
    unfolding b_def using div_bounds [of 100 "y - 1901"] by simp_all
  have c: "400 * c \<le> y - 1601" "y - 1601 \<le> 400 * c + 399"
    unfolding c_def using div_bounds [of 400 "y - 1601"] by simp_all
  have d: "DayFromYear y = 365 * (y - 1970) + a - b + c"
    by (simp add: DayFromYear_def a_def b_def c_def)
  show "146097 * (y - 1970) - 506 \<le> 400 * DayFromYear y"
    using a b c unfolding d by (simp add: algebra_simps)
  show "400 * DayFromYear y \<le> 146097 * (y - 1970) + 589"
    using a b c unfolding d by (simp add: algebra_simps)
qed

lemma DayFromYear_strict_mono: "y < y' \<Longrightarrow> DayFromYear y < DayFromYear y'"
  using DayFromYear_bounds(2) [of y] DayFromYear_bounds(1) [of y']
  by (simp add: algebra_simps)

lemma DayFromYear_mono: "y \<le> y' \<Longrightarrow> DayFromYear y \<le> DayFromYear y'"
  using DayFromYear_strict_mono [of y y'] by (cases "y = y'") simp_all

lemma YearFromDay_correct:
  "DayFromYear (YearFromDay d) \<le> d" "d < DayFromYear (YearFromDay d + 1)"
proof -
  define y where "y = 1970 + (400 * d) div 146097"
  have y: "146097 * (y - 1970) \<le> 400 * d" "400 * d < 146097 * (y - 1970) + 146097"
    unfolding y_def using div_bounds [of 146097 "400 * d"] by simp_all
  have lo: "DayFromYear (y - 1) \<le> d"
    using DayFromYear_bounds(2) [of "y - 1"] y(1) by (simp add: algebra_simps)
  have hi: "d < DayFromYear (y + 2)"
    using DayFromYear_bounds(1) [of "y + 2"] y(2) by (simp add: algebra_simps)
  have r: "YearFromDay d =
     (if d < DayFromYear y then y - 1 else if DayFromYear (y + 1) \<le> d then y + 1 else y)"
    by (simp add: YearFromDay_def y_def Let_def)
  show "DayFromYear (YearFromDay d) \<le> d"
    unfolding r using lo by simp
  show "d < DayFromYear (YearFromDay d + 1)"
    unfolding r using hi by (simp add: add.commute)
qed

lemma YearFromDay_unique:
  assumes "DayFromYear y \<le> d" "d < DayFromYear (y + 1)"
  shows "YearFromDay d = y"
proof (rule ccontr)
  assume "YearFromDay d \<noteq> y"
  then consider "YearFromDay d + 1 \<le> y" | "y + 1 \<le> YearFromDay d" by linarith
  then show False
  proof cases
    case 1
    from DayFromYear_mono [OF this] YearFromDay_correct(2) [of d] assms(1)
    show False by simp
  next
    case 2
    from DayFromYear_mono [OF this] YearFromDay_correct(1) [of d] assms(2)
    show False by simp
  qed
qed

section \<open>Months and dates\<close>

lemma InLeapYear_leap_year: "InLeapYear y = (if leap_year y then 1 else 0)"
proof (cases "y mod 4 = 0")
  case False
  then show ?thesis by (simp add: InLeapYear_def DaysInYear_def leap_year_def)
next
  case 4: True
  show ?thesis
  proof (cases "y mod 100 = 0")
    case False
    with 4 show ?thesis by (simp add: InLeapYear_def DaysInYear_def leap_year_def)
  next
    case True
    with 4 show ?thesis
      by (cases "y mod 400 = 0") (simp_all add: InLeapYear_def DaysInYear_def leap_year_def)
  qed
qed

lemma DaysInYear_InLeapYear: "DaysInYear y = 365 + InLeapYear y"
  by (simp add: InLeapYear_def DaysInYear_def)

lemma month_disj:
  fixes m :: int
  assumes "0 \<le> m" "m \<le> 11"
  shows "m = 0 \<or> m = 1 \<or> m = 2 \<or> m = 3 \<or> m = 4 \<or> m = 5 \<or> m = 6 \<or> m = 7
    \<or> m = 8 \<or> m = 9 \<or> m = 10 \<or> m = 11"
  using assms by presburger

lemma month_cases:
  fixes m :: int
  assumes "0 \<le> m" "m \<le> 11"
  obtains "m = 0" | "m = 1" | "m = 2" | "m = 3" | "m = 4" | "m = 5" | "m = 6" | "m = 7"
    | "m = 8" | "m = 9" | "m = 10" | "m = 11"
  using month_disj [OF assms] by blast


lemma InLeapYear_bounds: "0 \<le> InLeapYear y" "InLeapYear y \<le> 1"
  by (simp_all add: InLeapYear_def)


lemma FirstDayOfMonth_values:
  "FirstDayOfMonth l 0 = 0" "FirstDayOfMonth l 1 = 31" "FirstDayOfMonth l 2 = 59 + l"
  "FirstDayOfMonth l 3 = 90 + l" "FirstDayOfMonth l 4 = 120 + l" "FirstDayOfMonth l 5 = 151 + l"
  "FirstDayOfMonth l 6 = 181 + l" "FirstDayOfMonth l 7 = 212 + l" "FirstDayOfMonth l 8 = 243 + l"
  "FirstDayOfMonth l 9 = 273 + l" "FirstDayOfMonth l 10 = 304 + l"
  "FirstDayOfMonth l 11 = 334 + l" "FirstDayOfMonth l 12 = 365 + l"
  by (simp_all add: FirstDayOfMonth_def)

lemma DaysInMonth_values:
  "DaysInMonth y 0 = 31" "DaysInMonth y 1 = 28 + InLeapYear y" "DaysInMonth y 2 = 31"
  "DaysInMonth y 3 = 30" "DaysInMonth y 4 = 31" "DaysInMonth y 5 = 30" "DaysInMonth y 6 = 31"
  "DaysInMonth y 7 = 31" "DaysInMonth y 8 = 30" "DaysInMonth y 9 = 31" "DaysInMonth y 10 = 30"
  "DaysInMonth y 11 = 31"
  by (simp_all add: DaysInMonth_def InLeapYear_leap_year)

lemma FirstDayOfMonth_next:
  assumes "0 \<le> m" "m \<le> 11"
  shows "FirstDayOfMonth (InLeapYear y) (m + 1) =
         FirstDayOfMonth (InLeapYear y) m + DaysInMonth y m"
  using assms
  by (cases m rule: month_cases)
     (simp_all add: FirstDayOfMonth_values DaysInMonth_values)

text \<open>The month of a day, from the day within its year.\<close>

lemma MonthFromDay_eq:
  assumes "0 \<le> m" "m \<le> 11"
    and "FirstDayOfMonth (InLeapYear (YearFromDay n)) m \<le> DayWithinYear n"
    and "DayWithinYear n < FirstDayOfMonth (InLeapYear (YearFromDay n)) (m + 1)"
  shows "MonthFromDay n = m"
  using assms(1,2)
proof (cases m rule: month_cases)
  case 1 with assms(3,4) InLeapYear_bounds [of "YearFromDay n"] show ?thesis
    by (simp add: MonthFromDay_def FirstDayOfMonth_values Let_def)
next
  case 2 with assms(3,4) InLeapYear_bounds [of "YearFromDay n"] show ?thesis
    by (simp add: MonthFromDay_def FirstDayOfMonth_values Let_def)
next
  case 3 with assms(3,4) InLeapYear_bounds [of "YearFromDay n"] show ?thesis
    by (simp add: MonthFromDay_def FirstDayOfMonth_values Let_def)
next
  case 4 with assms(3,4) InLeapYear_bounds [of "YearFromDay n"] show ?thesis
    by (simp add: MonthFromDay_def FirstDayOfMonth_values Let_def)
next
  case 5 with assms(3,4) InLeapYear_bounds [of "YearFromDay n"] show ?thesis
    by (simp add: MonthFromDay_def FirstDayOfMonth_values Let_def)
next
  case 6 with assms(3,4) InLeapYear_bounds [of "YearFromDay n"] show ?thesis
    by (simp add: MonthFromDay_def FirstDayOfMonth_values Let_def)
next
  case 7 with assms(3,4) InLeapYear_bounds [of "YearFromDay n"] show ?thesis
    by (simp add: MonthFromDay_def FirstDayOfMonth_values Let_def)
next
  case 8 with assms(3,4) InLeapYear_bounds [of "YearFromDay n"] show ?thesis
    by (simp add: MonthFromDay_def FirstDayOfMonth_values Let_def)
next
  case 9 with assms(3,4) InLeapYear_bounds [of "YearFromDay n"] show ?thesis
    by (simp add: MonthFromDay_def FirstDayOfMonth_values Let_def)
next
  case 10 with assms(3,4) InLeapYear_bounds [of "YearFromDay n"] show ?thesis
    by (simp add: MonthFromDay_def FirstDayOfMonth_values Let_def)
next
  case 11 with assms(3,4) InLeapYear_bounds [of "YearFromDay n"] show ?thesis
    by (simp add: MonthFromDay_def FirstDayOfMonth_values Let_def)
next
  case 12 with assms(3,4) InLeapYear_bounds [of "YearFromDay n"] show ?thesis
    by (simp add: MonthFromDay_def FirstDayOfMonth_values Let_def)
qed


lemma FirstDayOfMonth_bounds:
  assumes "0 \<le> m" "m \<le> 11"
  shows "0 \<le> FirstDayOfMonth (InLeapYear y) m"
    and "FirstDayOfMonth (InLeapYear y) (m + 1) \<le> 365 + InLeapYear y"
  using assms InLeapYear_bounds [of y]
  by (cases m rule: month_cases; simp add: FirstDayOfMonth_values)+

lemma MakeDay_plain:
  assumes "0 \<le> m" "m \<le> 11"
  shows "MakeDay y m d = DayFromYear y + FirstDayOfMonth (InLeapYear y) m + d - 1"
proof -
  have "m div 12 = 0" "m mod 12 = m" using assms by simp_all
  then show ?thesis by (simp add: MakeDay_def)
qed

lemma civil_of_MakeDay:
  assumes "real_date y m d"
  shows "YearFromDay (MakeDay y m d) = y"
    and "MonthFromDay (MakeDay y m d) = m"
    and "DateFromDay (MakeDay y m d) = d"
proof -
  define n where "n = MakeDay y m d"
  have m: "0 \<le> m" "m \<le> 11" and d: "1 \<le> d" "d \<le> DaysInMonth y m"
    using assms by (simp_all add: real_date_def)
  have n: "n = DayFromYear y + FirstDayOfMonth (InLeapYear y) m + d - 1"
    unfolding n_def by (rule MakeDay_plain [OF m])
  have lo: "DayFromYear y \<le> n"
    using FirstDayOfMonth_bounds(1) [OF m, of y] d(1) unfolding n by simp
  have hi: "n < DayFromYear (y + 1)"
    using FirstDayOfMonth_bounds(2) [OF m, of y] FirstDayOfMonth_next [OF m, of y] d(2)
    unfolding n DayFromYear_step DaysInYear_InLeapYear by simp
  have y: "YearFromDay n = y"
    by (rule YearFromDay_unique [OF lo hi])
  have w: "DayWithinYear n = FirstDayOfMonth (InLeapYear y) m + d - 1"
    unfolding DayWithinYear_def y by (simp add: n)
  have mo: "MonthFromDay n = m"
    using d FirstDayOfMonth_next [OF m, of y]
    by (intro MonthFromDay_eq m) (simp_all add: y w)
  show "YearFromDay (MakeDay y m d) = y" using y by (simp add: n_def)
  show "MonthFromDay (MakeDay y m d) = m" using mo by (simp add: n_def)
  show "DateFromDay (MakeDay y m d) = d"
    using y w mo by (simp add: DateFromDay_def n_def)
qed



section \<open>Time values and local days\<close>

lemma Day_MakeDate:
  assumes "0 \<le> tod" "tod < msPerDay"
  shows "Day (MakeDate N tod) = N" "TimeWithinDay (MakeDate N tod) = tod"
proof -
  have p: "0 < msPerDay" by (simp add: msPerDay_def)
  have e: "MakeDate N tod = msPerDay * N + tod" by (simp add: MakeDate_def)
  show "Day (MakeDate N tod) = N"
    unfolding Day_def using assms by (intro int_div_pos_eq [OF e]) simp_all
  show "TimeWithinDay (MakeDate N tod) = tod"
    unfolding TimeWithinDay_def using assms by (intro int_mod_pos_eq [OF e]) simp_all
qed



lemma LocalTime_UTC [simp]: "LocalTime rt (UTC rt x) = x" "UTC rt (LocalTime rt x) = x"
  by (simp_all add: LocalTime_def UTC_def)

lemma MakeDay_range:
  assumes "real_date y m d"
  shows "DayFromYear y \<le> MakeDay y m d" "MakeDay y m d < DayFromYear (y + 1)"
proof -
  have y: "YearFromDay (MakeDay y m d) = y" by (rule civil_of_MakeDay(1) [OF assms])
  show "DayFromYear y \<le> MakeDay y m d"
    using YearFromDay_correct(1) [of "MakeDay y m d"] by (simp add: y)
  show "MakeDay y m d < DayFromYear (y + 1)"
    using YearFromDay_correct(2) [of "MakeDay y m d"] by (simp add: y)
qed

lemma DayFromYear_limits:
  "DayFromYear (- 271820) = - 99999744" "DayFromYear 275760 = 99999744"
  by (simp_all add: DayFromYear_def)

lemma year_range_days:
  assumes "- 271820 \<le> y" "y \<le> 275759" "DayFromYear y \<le> N" "N < DayFromYear (y + 1)"
  shows "- 99999744 \<le> N" "N < 99999744"
proof -
  have "DayFromYear (- 271820) \<le> DayFromYear y"
    using assms(1) by (intro DayFromYear_mono) simp
  then show "- 99999744 \<le> N" using assms(3) by (simp add: DayFromYear_limits)
  have "DayFromYear (y + 1) \<le> DayFromYear 275760"
    using assms(2) by (intro DayFromYear_mono) simp
  then show "N < 99999744" using assms(4) by (simp add: DayFromYear_limits)
qed

lemma TimeClip_local:
  assumes "zone_ok rt" "- 99999999 \<le> N" "N \<le> 99999998" "0 \<le> tod" "tod < msPerDay"
  shows "TimeClip (UTC rt (MakeDate N tod)) = Some (UTC rt (MakeDate N tod))"
proof -
  have "\<bar>LocalTZA rt\<bar> \<le> 86400000" using assms(1) by (simp add: zone_ok_def msPerDay_def)
  moreover have "tod < 86400000" using assms(5) by (simp add: msPerDay_def)
  ultimately have "\<bar>N * 86400000 + tod - LocalTZA rt\<bar> \<le> 8640000000000000"
    using assms(2,3,4) by linarith
  then show ?thesis by (simp add: TimeClip_def UTC_def MakeDate_def msPerDay_def)
qed

section \<open>The date methods on civil dates\<close>

lemma DaysInMonth_bounds: "28 \<le> DaysInMonth y m" "DaysInMonth y m \<le> 31"
  by (simp_all add: DaysInMonth_def)

lemma local_fields_midnight:
  assumes "real_date y m d"
  shows "local_year rt (local_midnight rt y m d) = y"
    and "local_month rt (local_midnight rt y m d) = m"
    and "local_date rt (local_midnight rt y m d) = d"
    and "local_day rt (local_midnight rt y m d) = MakeDay y m d"
  using civil_of_MakeDay [OF assms]
  by (simp_all add: local_year_def local_month_def local_date_def local_day_def local_midnight_def
      YearFromTime_def MonthFromTime_def DateFromTime_def Day_MakeDate msPerDay_def)

lemma TimeClip_local_midnight_range:
  assumes "zone_ok rt" "- 271820 \<le> y" "y \<le> 275759" "real_date y m d"
  shows "TimeClip (local_midnight rt y m d) = Some (local_midnight rt y m d)"
proof -
  have "- 99999744 \<le> MakeDay y m d" "MakeDay y m d < 99999744"
    using year_range_days [OF assms(2,3) MakeDay_range [OF assms(4)]] by simp_all
  then show ?thesis
    unfolding local_midnight_def using assms(1)
    by (intro TimeClip_local) (simp_all add: msPerDay_def)
qed

lemma TimeClip_local_midnight:
  assumes "zone_ok rt" "supported_year y" "real_date y m d"
  shows "TimeClip (local_midnight rt y m d) = Some (local_midnight rt y m d)"
  using assms(2) by (intro TimeClip_local_midnight_range assms(1,3)) (simp_all add: supported_year_def)

lemma MakeFullYear_supported: "supported_year y \<Longrightarrow> MakeFullYear y = y"
  by (auto simp add: supported_year_def MakeFullYear_def)

lemma MakeFullYear_range:
  assumes "- 271820 \<le> y" "y \<le> 275759"
  shows "- 271820 \<le> MakeFullYear y" "MakeFullYear y \<le> 275759"
  using assms by (simp_all add: MakeFullYear_def)

lemma new_Date_ymd_general:
  assumes "zone_ok rt" "- 271820 \<le> y" "y \<le> 275759" "real_date (MakeFullYear y) m d"
  shows "new_Date_ymd rt (Some y) (Some m) (Some d) = Some (local_midnight rt (MakeFullYear y) m d)"
  using TimeClip_local_midnight_range [OF assms(1) MakeFullYear_range [OF assms(2,3)] assms(4)]
  by (simp add: new_Date_ymd_def local_midnight_def)

lemma new_Date_ymd_civil:
  assumes "zone_ok rt" "supported_year y" "real_date y m d"
  shows "new_Date_ymd rt (Some y) (Some m) (Some d) = Some (local_midnight rt y m d)"
  using assms(2,3) new_Date_ymd_general [OF assms(1), of y m d]
  by (simp add: MakeFullYear_supported supported_year_def)






section \<open>Date-only strings\<close>

lemma parse_iso_date_append:
  assumes "length s = 10"
  shows "parse_iso_date off (s @ x) = parse_iso_date off s"
  using assms by (simp add: parse_iso_date_def)

lemma toLocalDate_date_only:
  assumes "date_only_format s"
  shows "toLocalDate rt (DateString s) = parse_iso_date (LocalTZA rt) s"
proof -
  have l: "length s = 10" using assms by (simp add: date_only_format_def)
  have n: "\<not> date_only_format (s @ ''T00:00:00'')"
    using l by (simp add: date_only_format_def)
  show ?thesis
    using assms l n
    by (simp add: toLocalDate_def new_Date_def Date_parse_def parse_iso_date_append)
qed

lemma parse_iso_date_real:
  assumes "zone_ok rt" "length s = 10"
    and "decimal (take 4 s) = y" "decimal (take 2 (drop 5 s)) = m + 1" "decimal (drop 8 s) = d"
    and "- 271820 \<le> y" "y \<le> 275759" "real_date y m d"
  shows "parse_iso_date (LocalTZA rt) s = Some (local_midnight rt y m d)"
proof -
  have b: "1 \<le> m + 1" "m + 1 \<le> 12" "1 \<le> d" "d \<le> 31"
    using assms(8) DaysInMonth_bounds(2) [of y m] by (simp_all add: real_date_def)
  have "parse_iso_date (LocalTZA rt) s = TimeClip (local_midnight rt y m d)"
    using b assms(2,3,4,5) by (simp add: parse_iso_date_def local_midnight_def UTC_def)
  then show ?thesis
    using TimeClip_local_midnight_range [OF assms(1,6,7,8)] by simp
qed

lemma zone_ok_pacific: "zone_ok pacific"
  by (simp add: zone_ok_def pacific_def msPerDay_def)



lemmas string_eval = date_only_format_def is_digit_def decimal_def digit_value_def



section \<open>Reading and printing the fields of a date\<close>

declare string_of_nat.simps [simp del]

lemma digit_value_bounds: "is_digit c \<Longrightarrow> 0 \<le> digit_value c \<and> digit_value c \<le> 9"
  by (auto simp add: is_digit_def digit_value_def)

lemma digit_char_value: "is_digit c \<Longrightarrow> digit_char (nat (digit_value c)) = c"
  by (auto simp add: is_digit_def digit_value_def digit_char_def)

lemma decimal_snoc: "decimal (xs @ [c]) = 10 * decimal xs + digit_value c"
  by (simp add: decimal_def)

lemma decimal_bounds:
  "list_all is_digit xs \<Longrightarrow> 0 \<le> decimal xs \<and> decimal xs < 10 ^ length xs"
proof (induction xs rule: rev_induct)
  case Nil
  then show ?case by (simp add: decimal_def)
next
  case (snoc c xs)
  then have "0 \<le> decimal xs" "decimal xs < 10 ^ length xs" "0 \<le> digit_value c" "digit_value c \<le> 9"
    using digit_value_bounds [of c] by simp_all
  then show ?case
    unfolding decimal_snoc by simp
qed

lemma year_of_string_bounds:
  assumes "date_only_format s"
  shows "0 \<le> year_of_string s" "year_of_string s \<le> 9999"
  using decimal_bounds [of "take 4 s"] assms
  by (simp_all add: date_only_format_def year_of_string_def)

lemma parse_iso_date_fields:
  "parse_iso_date off s =
     (if 1 \<le> month_of_string s \<and> month_of_string s \<le> 12 \<and> 1 \<le> day_of_string s \<and> day_of_string s \<le> 31
      then TimeClip (MakeDate (MakeDay (year_of_string s) (month_of_string s - 1) (day_of_string s)) 0 - off)
      else None)"
  by (simp add: parse_iso_date_def year_of_string_def month_of_string_def day_of_string_def Let_def)






lemma formatDateForDB_valid:
  assumes "toLocalDate rt date = Some t"
  shows "formatDateForDB rt date =
     Inr (String (Some (local_year rt t)) @ ''-'' @
          padStart 2 (String (Some (local_month rt t + 1))) @ ''-'' @
          padStart 2 (String (Some (local_date rt t))))"
  using assms
  by (simp add: formatDateForDB_def Let_def getFullYear_def getMonth_def getDate_def num_add_def
      local_year_def local_month_def local_date_def)

lemmas format_eval = String_def padStart_def string_of_nat.simps digit_char_def

section \<open>The period that contains a date\<close>




section \<open>Invalid dates\<close>




section \<open>Parsing a date-only string and printing it again\<close>

lemma length_10:
  assumes "length s = 10"
  obtains c0 c1 c2 c3 c4 c5 c6 c7 c8 c9 where "s = [c0, c1, c2, c3, c4, c5, c6, c7, c8, c9]"
  using assms by (auto simp add: length_Suc_conv eval_nat_numeral)

lemma string_of_nat_digit: "k < 10 \<Longrightarrow> string_of_nat k = [digit_char k]"
  by (simp add: string_of_nat.simps)

lemma string_of_nat_snoc:
  assumes "0 < n" "k < 10"
  shows "string_of_nat (10 * n + k) = string_of_nat n @ [digit_char k]"
proof -
  have "\<not> 10 * n + k < 10" using assms(1) by simp
  moreover have "(10 * n + k) div 10 = n" "(10 * n + k) mod 10 = k" using assms(2) by simp_all
  ultimately show ?thesis by (subst string_of_nat.simps) simp
qed


lemma digit_nat:
  assumes "is_digit c"
  obtains k where "k < 10" "digit_value c = int k" "digit_char k = c"
proof -
  have "nat (digit_value c) < 10" "digit_value c = int (nat (digit_value c))"
    using digit_value_bounds [OF assms] by linarith+
  then show ?thesis using digit_char_value [OF assms] that by blast
qed

lemma String_nat: "String (Some (int n)) = string_of_nat n"
  by (simp add: String_def)

lemma String_four_digits:
  assumes "is_digit a" "is_digit b" "is_digit c" "is_digit d" "1000 \<le> decimal [a, b, c, d]"
  shows "String (Some (decimal [a, b, c, d])) = [a, b, c, d]"
proof -
  obtain ka where ka: "ka < 10" "digit_value a = int ka" "digit_char ka = a"
    using assms(1) by (rule digit_nat)
  obtain kb where kb: "kb < 10" "digit_value b = int kb" "digit_char kb = b"
    using assms(2) by (rule digit_nat)
  obtain kc where kc: "kc < 10" "digit_value c = int kc" "digit_char kc = c"
    using assms(3) by (rule digit_nat)
  obtain kd where kd: "kd < 10" "digit_value d = int kd" "digit_char kd = d"
    using assms(4) by (rule digit_nat)
  have e: "decimal [a, b, c, d] = int (10 * (10 * (10 * ka + kb) + kc) + kd)"
    by (simp add: decimal_def ka kb kc kd)
  have pos: "0 < ka"
  proof (rule ccontr)
    assume "\<not> 0 < ka"
    then have "10 * (10 * (10 * ka + kb) + kc) + kd < 1000" using kb(1) kc(1) kd(1) by simp
    then show False using assms(5) unfolding e by linarith
  qed
  have p2: "0 < 10 * ka + kb" and p3: "0 < 10 * (10 * ka + kb) + kc"
    using pos by simp_all
  have "string_of_nat (10 * (10 * (10 * ka + kb) + kc) + kd) =
          [digit_char ka, digit_char kb, digit_char kc, digit_char kd]"
    by (simp only: string_of_nat_snoc [OF p3 kd(1)] string_of_nat_snoc [OF p2 kc(1)]
        string_of_nat_snoc [OF pos kb(1)] string_of_nat_digit [OF ka(1)] append.simps)
  then show ?thesis
    unfolding e String_nat by (simp add: ka kb kc kd)
qed

lemma padStart2_two_digits:
  assumes "is_digit a" "is_digit b"
  shows "padStart 2 (String (Some (decimal [a, b]))) = [a, b]"
proof -
  obtain ka where ka: "ka < 10" "digit_value a = int ka" "digit_char ka = a"
    using assms(1) by (rule digit_nat)
  obtain kb where kb: "kb < 10" "digit_value b = int kb" "digit_char kb = b"
    using assms(2) by (rule digit_nat)
  have e: "decimal [a, b] = int (10 * ka + kb)"
    by (simp add: decimal_def ka kb)
  show ?thesis
  proof (cases "ka = 0")
    case True
    then have "a = CHR ''0''" using ka(3) by (simp add: digit_char_def)
    then show ?thesis
      unfolding e String_nat using True kb
      by (simp add: string_of_nat_digit padStart_def)
  next
    case False
    then have "0 < ka" by simp
    then have "string_of_nat (10 * ka + kb) = [digit_char ka, digit_char kb]"
      by (simp only: string_of_nat_snoc [OF _ kb(1)] string_of_nat_digit [OF ka(1)] append.simps)
    then show ?thesis
      unfolding e String_nat by (simp add: padStart_def ka kb)
  qed
qed

text \<open>
  In every zone at most a day from UTC, a date-only string that spells a real calendar
  date of the years 1000 to 9999 is printed back by \<open>formatDateForDB\<close> as it was
  written: the string is read as local midnight and printed from the local fields, so
  the zone never moves it to the day before or after.
\<close>

theorem format_parse_roundtrip:
  assumes "zone_ok rt" "real_date_string s" "1000 \<le> year_of_string s"
  shows "formatDateForDB rt (DateString s) = Inr s"
proof -
  have f: "date_only_format s"
    and r: "real_date (year_of_string s) (month_of_string s - 1) (day_of_string s)"
    using assms(2) by (simp_all add: real_date_string_def)
  have l: "length s = 10" using f by (simp add: date_only_format_def)
  obtain c0 c1 c2 c3 c4 c5 c6 c7 c8 c9 where s: "s = [c0, c1, c2, c3, c4, c5, c6, c7, c8, c9]"
    using l by (rule length_10)
  have dg: "is_digit c0" "is_digit c1" "is_digit c2" "is_digit c3" "c4 = CHR ''-''"
    "is_digit c5" "is_digit c6" "c7 = CHR ''-''" "is_digit c8" "is_digit c9"
    using f unfolding s by (simp_all add: date_only_format_def)
  have fields: "year_of_string s = decimal [c0, c1, c2, c3]"
    "month_of_string s = decimal [c5, c6]" "day_of_string s = decimal [c8, c9]"
    unfolding s by (simp_all add: year_of_string_def month_of_string_def day_of_string_def)
  have y: "- 271820 \<le> year_of_string s" "year_of_string s \<le> 275759"
    using year_of_string_bounds [OF f] by simp_all
  have t: "toLocalDate rt (DateString s) =
      Some (local_midnight rt (year_of_string s) (month_of_string s - 1) (day_of_string s))"
    unfolding toLocalDate_date_only [OF f]
    by (rule parse_iso_date_real [OF assms(1) l _ _ _ y r])
       (simp_all add: year_of_string_def month_of_string_def day_of_string_def l)
  show ?thesis
    unfolding formatDateForDB_valid [OF t] local_fields_midnight [OF r]
    using assms(3) unfolding fields
    by (simp add: String_four_digits padStart2_two_digits dg s)
qed

theorem format_parse_roundtrip_witness:
  "formatDateForDB pacific (DateString ''2026-02-15'') = Inr ''2026-02-15''"
proof -
  have r: "real_date_string ''2026-02-15''"
    by (simp add: real_date_string_def real_date_def DaysInMonth_def year_of_string_def
        month_of_string_def day_of_string_def string_eval)
  have y: "1000 \<le> year_of_string ''2026-02-15''"
    by (simp add: year_of_string_def string_eval)
  show ?thesis
    by (rule format_parse_roundtrip [OF zone_ok_pacific r y])
qed

text \<open>
  Claim C3.  The claim reads: for every date-only string of the form YYYY-MM-DD that
  denotes a real calendar date, parsing and then formatting returns the string itself,
  zero-padded.  \<open>formatDateForDB\<close> pads the month and the day but prints the year as
  the number it is, so a year below 1000 comes back with fewer than four digits.
\<close>

theorem year_999_not_padded:
  "real_date_string ''0999-01-01'' \<and>
   formatDateForDB pacific (DateString ''0999-01-01'') = Inr ''999-01-01''"
proof -
  have r: "real_date 999 0 1" by (simp add: real_date_def DaysInMonth_def)
  have f: "date_only_format ''0999-01-01''" by (simp add: string_eval)
  have rs: "real_date_string ''0999-01-01''"
    using r f by (simp add: real_date_string_def year_of_string_def month_of_string_def
        day_of_string_def string_eval)
  have t: "toLocalDate pacific (DateString ''0999-01-01'') = Some (local_midnight pacific 999 0 1)"
    unfolding toLocalDate_date_only [OF f]
    by (rule parse_iso_date_real [OF zone_ok_pacific _ _ _ _ _ _ r]) (simp_all add: string_eval)
  show ?thesis
    using rs by (simp add: formatDateForDB_valid [OF t] local_fields_midnight [OF r] format_eval)
qed


subsection \<open>The server copies of the period functions\<close>

text \<open>
  The server files carry their own copies: \<open>getPayPeriod\<close> without the check for an
  invalid date, and \<open>formatDateForDB\<close> through \<open>toISOString\<close>.  On a valid date object
  both \<open>getPayPeriod\<close> agree; on an invalid one the server copy returns a period of
  two invalid dates where the library throws.  The server \<open>formatDateForDB\<close> pads
  the year to four digits, and reads the date in UTC: east of UTC it gives the day
  before the local date.
\<close>

lemma period_around_invalid:
  "getPayPeriod_server rt (DateObject None) = \<lparr> period_start = None, period_end = None \<rparr>"
  by (simp add: getPayPeriod_server_def new_Date_def period_around_def getFullYear_def
      getMonth_def getDate_def num_le_def num_add_def new_Date_ymd_def Let_def)

lemma getPayPeriod_server_valid:
  "getPayPeriod rt (DateObject (Some t)) = Inr (getPayPeriod_server rt (DateObject (Some t)))"
  by (simp add: getPayPeriod_def getPayPeriod_server_def toLocalDate_def new_Date_def)

lemma UTC_fields_of_day:
  assumes "real_date y m d"
  shows "YearFromTime (MakeDate (MakeDay y m d) 0) = y"
    and "MonthFromTime (MakeDate (MakeDay y m d) 0) = m"
    and "DateFromTime (MakeDate (MakeDay y m d) 0) = d"
  using civil_of_MakeDay [OF assms]
  by (simp_all add: YearFromTime_def MonthFromTime_def DateFromTime_def Day_MakeDate msPerDay_def)

lemma formatDateForDB_server_year_999:
  "formatDateForDB_server (new_Date rt (DateString ''0999-01-01'')) = Some ''0999-01-01''"
proof -
  have r: "real_date 999 0 1" by (simp add: real_date_def DaysInMonth_def)
  have f: "date_only_format ''0999-01-01''" by (simp add: string_eval)
  have "new_Date rt (DateString ''0999-01-01'') = TimeClip (MakeDate (MakeDay 999 0 1) 0)"
    using f
    by (simp add: new_Date_def Date_parse_def parse_iso_date_fields year_of_string_def
        month_of_string_def day_of_string_def decimal_def digit_value_def)
  also have "\<dots> = Some (MakeDate (MakeDay 999 0 1) 0)"
    by (simp add: TimeClip_def MakeDate_def MakeDay_def DayFromYear_def FirstDayOfMonth_def
        InLeapYear_def DaysInYear_def msPerDay_def)
  finally show ?thesis
    by (simp add: formatDateForDB_server_def UTC_fields_of_day [OF r] iso_year_def format_eval)
qed

lemma formatDateForDB_server_shifts_east_of_UTC:
  "formatDateForDB central_european (DateObject (Some (local_midnight central_european 2026 1 1)))
     = Inr ''2026-02-01'' \<and>
   formatDateForDB_server (Some (local_midnight central_european 2026 1 1)) = Some ''2026-01-31''"
proof -
  have r: "real_date 2026 1 1" and r': "real_date 2026 0 31"
    by (simp_all add: real_date_def DaysInMonth_def)
  have t: "toLocalDate central_european
      (DateObject (Some (local_midnight central_european 2026 1 1))) =
      Some (local_midnight central_european 2026 1 1)"
    by (simp add: toLocalDate_def new_Date_def)
  have e: "local_midnight central_european 2026 1 1 = MakeDate (MakeDay 2026 0 31) 82800000"
    by (simp add: local_midnight_def UTC_def central_european_def pacific_def MakeDate_def
        MakeDay_def DayFromYear_def FirstDayOfMonth_def InLeapYear_def DaysInYear_def msPerDay_def)
  have u: "YearFromTime (MakeDate (MakeDay 2026 0 31) 82800000) = 2026"
    "MonthFromTime (MakeDate (MakeDay 2026 0 31) 82800000) = 0"
    "DateFromTime (MakeDate (MakeDay 2026 0 31) 82800000) = 31"
    using civil_of_MakeDay [OF r']
    by (simp_all add: YearFromTime_def MonthFromTime_def DateFromTime_def Day_MakeDate msPerDay_def)
  show ?thesis
    unfolding formatDateForDB_valid [OF t] local_fields_midnight [OF r]
    by (simp add: formatDateForDB_server_def e u iso_year_def format_eval)
qed

section \<open>Periods in a row\<close>


lemma period_index_decompose:
  fixes k :: int
  shows "k = 24 * (k div 24) + 2 * (k mod 24 div 2) + k mod 2"
    and "0 \<le> k mod 24 div 2" and "k mod 24 div 2 \<le> 11"
proof -
  have a: "k = 24 * (k div 24) + k mod 24" by simp
  have b: "k mod 24 = 2 * (k mod 24 div 2) + k mod 24 mod 2" by simp
  have c: "k mod 24 mod 2 = k mod 2" by (simp add: mod_mod_cancel)
  show "k = 24 * (k div 24) + 2 * (k mod 24 div 2) + k mod 2"
    using a b c by linarith
  have r: "0 \<le> k mod 24" "k mod 24 < 24" by simp_all
  show "0 \<le> k mod 24 div 2" using r by simp
  show "k mod 24 div 2 \<le> 11" using r by simp
qed

lemma real_date_halves:
  assumes "0 \<le> m" "m \<le> 11"
  shows "real_date y m 1" "real_date y m 15" "real_date y m 16" "real_date y m (DaysInMonth y m)"
  using assms DaysInMonth_bounds [of y m] by (simp_all add: real_date_def)

lemma real_date_first_day:
  "real_date (k div 24) (k mod 24 div 2) (if k mod 2 = 0 then 1 else 16)"
  using real_date_halves [where m = "k mod 24 div 2" and y = "k div 24"]
    period_index_decompose(2,3) [of k]
  by simp

lemma real_date_last_day:
  "real_date (k div 24) (k mod 24 div 2)
     (if k mod 2 = 0 then 15 else DaysInMonth (k div 24) (k mod 24 div 2))"
  using real_date_halves [where m = "k mod 24 div 2" and y = "k div 24"]
    period_index_decompose(2,3) [of k]
  by simp

lemma mod_2_cases: "(k :: int) mod 2 = 0 \<or> k mod 2 = 1"
  by presburger

lemma day_period_first_day: "day_period (first_day k) = k"
proof -
  have "day_period (first_day k) = 24 * (k div 24) + 2 * (k mod 24 div 2) + k mod 2"
    unfolding day_period_def first_day_def civil_of_MakeDay [OF real_date_first_day]
    using mod_2_cases [of k] by auto
  then show ?thesis using period_index_decompose(1) [of k] by simp
qed

lemma day_period_last_day: "day_period (last_day k) = k"
proof -
  have "day_period (last_day k) = 24 * (k div 24) + 2 * (k mod 24 div 2) + k mod 2"
    unfolding day_period_def last_day_def civil_of_MakeDay [OF real_date_last_day]
    using mod_2_cases [of k] DaysInMonth_bounds(1) [of "k div 24" "k mod 24 div 2"] by auto
  then show ?thesis using period_index_decompose(1) [of k] by simp
qed



section \<open>One step of the walk\<close>

lemma local_day_day_start [simp]: "local_day rt (day_start rt N) = N"
  by (simp add: local_day_def day_start_def Day_MakeDate msPerDay_def)

lemma period_number_day: "period_number rt t = day_period (local_day rt t)"
  by (simp add: period_number_def day_period_def local_year_def local_month_def local_date_def
      local_day_def YearFromTime_def MonthFromTime_def DateFromTime_def)

lemma local_date_day: "local_date rt t = DateFromDay (local_day rt t)"
  by (simp add: local_date_def local_day_def DateFromTime_def)












section \<open>The loop of the walk\<close>

lemma period_number_day_start [simp]:
  "period_number rt (day_start rt (first_day k)) = k"
  "period_number rt (day_start rt (last_day k)) = k"
  by (simp_all add: period_number_day day_period_first_day day_period_last_day)








section \<open>The period reached\<close>




section \<open>A clock in the year 100\<close>








lemma now_update_zone [simp]:
  "zone_ok (rt\<lparr> now := x \<rparr>) = zone_ok rt"
  "period_number (rt\<lparr> now := x \<rparr>) t = period_number rt t"
  "nth_period (rt\<lparr> now := x \<rparr>) k = nth_period rt k"
  "local_midnight (rt\<lparr> now := x \<rparr>) y m d = local_midnight rt y m d"
  by (simp_all add: zone_ok_def period_number_def local_year_def local_month_def local_date_def
      LocalTime_def nth_period_def period_of_civil_def local_midnight_def UTC_def)


section \<open>Walking by an offset\<close>




section \<open>There and back again\<close>




end
